theory Spec2Isabelle
  imports Complex_Main "HOL-Library.Log_Nat"
begin

section \<open>JavaScript numbers\<close>

text \<open>
  The analysis in \<^verbatim>\<open>app/(tabs)/accelerometer.tsx\<close> computes with JavaScript numbers.
  A number is modelled as a real, or one of the three special values of IEEE arithmetic.
  Finite arithmetic is exact: rounding and overflow of finite values to an infinity are
  not part of the model, and zero is unsigned (every zero divisor that the analysis can
  produce is a positive zero, see \<open>durationSeconds\<close> and \<open>hannFactor\<close>). The special
  values follow IEEE 754: NaN propagates, \<open>x / 0\<close> is an infinity of the sign of \<open>x\<close>,
  \<open>0 / 0\<close>, \<open>0 * Infinity\<close> and \<open>Infinity - Infinity\<close> are NaN.
\<close>

datatype jsnum = Num real | PosInf | NegInf | NaN

fun isNaN :: "jsnum \<Rightarrow> bool" where
  "isNaN NaN = True"
| "isNaN _ = False"

fun isFinite :: "jsnum \<Rightarrow> bool" where
  "isFinite (Num _) = True"
| "isFinite _ = False"

text \<open>The infinity with the sign of \<open>s\<close>; NaN when there is no sign to take.\<close>

definition inf_signed :: "real \<Rightarrow> jsnum" where
  "inf_signed s = (if s = 0 then NaN else if 0 < s then PosInf else NegInf)"

fun jsign :: "jsnum \<Rightarrow> real" where
  "jsign (Num a) = sgn a"
| "jsign PosInf = 1"
| "jsign NegInf = - 1"
| "jsign NaN = 0"

fun jneg :: "jsnum \<Rightarrow> jsnum" where
  "jneg (Num a) = Num (- a)"
| "jneg PosInf = NegInf"
| "jneg NegInf = PosInf"
| "jneg NaN = NaN"

fun jadd :: "jsnum \<Rightarrow> jsnum \<Rightarrow> jsnum" where
  "jadd (Num a) (Num b) = Num (a + b)"
| "jadd NaN _ = NaN"
| "jadd _ NaN = NaN"
| "jadd PosInf NegInf = NaN"
| "jadd NegInf PosInf = NaN"
| "jadd PosInf _ = PosInf"
| "jadd _ PosInf = PosInf"
| "jadd NegInf _ = NegInf"
| "jadd _ NegInf = NegInf"

definition jsub :: "jsnum \<Rightarrow> jsnum \<Rightarrow> jsnum" where
  "jsub a b = jadd a (jneg b)"

fun jmul :: "jsnum \<Rightarrow> jsnum \<Rightarrow> jsnum" where
  "jmul (Num a) (Num b) = Num (a * b)"
| "jmul NaN _ = NaN"
| "jmul _ NaN = NaN"
| "jmul a b = inf_signed (jsign a * jsign b)"

fun jdiv :: "jsnum \<Rightarrow> jsnum \<Rightarrow> jsnum" where
  "jdiv (Num a) (Num b) = (if b = 0 then inf_signed a else Num (a / b))"
| "jdiv NaN _ = NaN"
| "jdiv _ NaN = NaN"
| "jdiv (Num a) _ = Num 0"
| "jdiv a (Num b) = inf_signed (jsign a * (if b < 0 then - 1 else 1))"
| "jdiv _ _ = NaN"

fun jsqrt :: "jsnum \<Rightarrow> jsnum" where
  "jsqrt (Num a) = (if a < 0 then NaN else Num (sqrt a))"
| "jsqrt PosInf = PosInf"
| "jsqrt _ = NaN"

fun jcos :: "jsnum \<Rightarrow> jsnum" where
  "jcos (Num a) = Num (cos a)"
| "jcos _ = NaN"

text \<open>The comparison \<open>a < b\<close>; every comparison with NaN is false.\<close>

fun jlt :: "jsnum \<Rightarrow> jsnum \<Rightarrow> bool" where
  "jlt (Num a) (Num b) = (a < b)"
| "jlt NaN _ = False"
| "jlt _ NaN = False"
| "jlt _ NegInf = False"
| "jlt NegInf _ = True"
| "jlt PosInf _ = False"
| "jlt _ PosInf = True"

definition jgt :: "jsnum \<Rightarrow> jsnum \<Rightarrow> bool" where
  "jgt a b = jlt b a"

definition jle :: "jsnum \<Rightarrow> jsnum \<Rightarrow> bool" where
  "jle a b = (jlt a b \<or> (a = b \<and> a \<noteq> NaN))"

text \<open>
  \<open>t || 0\<close> on an optional number: \<open>undefined\<close>, \<open>0\<close> and NaN are falsy and give \<open>0\<close>.
\<close>

fun or_zero :: "jsnum option \<Rightarrow> jsnum" where
  "or_zero None = Num 0"
| "or_zero (Some NaN) = Num 0"
| "or_zero (Some (Num t)) = (if t = 0 then Num 0 else Num t)"
| "or_zero (Some t) = t"

text \<open>
  Reading an array of numbers at an index: out of range JavaScript gives \<open>undefined\<close>,
  which \<open>isNaN\<close> reports as NaN and which arithmetic turns into NaN.
\<close>

definition at_index :: "jsnum list \<Rightarrow> nat \<Rightarrow> jsnum" where
  "at_index xs i = (if i < length xs then xs ! i else NaN)"

section \<open>Hann window\<close>

text \<open>
  \<^verbatim>\<open>const hannFactor = 0.5 * (1 - Math.cos((2 * Math.PI * index) / (data.length - 1)));\<close>
\<close>

definition hannFactor :: "nat \<Rightarrow> nat \<Rightarrow> jsnum" where
  "hannFactor index len =
     jmul (Num 0.5)
       (jsub (Num 1)
         (jcos (jdiv (jmul (jmul (Num 2) (Num pi)) (Num (real index)))
                     (jsub (Num (real len)) (Num 1)))))"

definition applyHannWindow :: "jsnum list \<Rightarrow> jsnum list" where
  "applyHannWindow data =
     map (\<lambda>index. jmul (data ! index) (hannFactor index (length data))) [0..<length data]"

section \<open>Zero padding\<close>

text \<open>
  \<^verbatim>\<open>Math.pow(2, Math.ceil(Math.log2(timeData.length)))\<close>. For an empty array
  \<open>Math.log2(0)\<close> is \<open>-Infinity\<close> and the power is \<open>0\<close>.
\<close>

definition nextPow2 :: "nat \<Rightarrow> nat" where
  "nextPow2 len = (if len = 0 then 0 else 2 ^ nat \<lceil>log 2 (real len)\<rceil>)"

text \<open>\<^verbatim>\<open>while (paddedData.length < nextPow2) { paddedData.push(0); }\<close>\<close>

function pad_loop :: "nat \<Rightarrow> jsnum list \<Rightarrow> jsnum list" where
  "pad_loop n paddedData =
     (if length paddedData < n then pad_loop n (paddedData @ [Num 0]) else paddedData)"
  by pat_completeness auto
termination
  by (relation "measure (\<lambda>(n, paddedData). n - length paddedData)") auto

declare pad_loop.simps [simp del]

definition paddedData :: "jsnum list \<Rightarrow> jsnum list" where
  "paddedData timeData = pad_loop (nextPow2 (length timeData)) timeData"

definition windowedData :: "jsnum list \<Rightarrow> jsnum list" where
  "windowedData timeData = applyHannWindow (paddedData timeData)"

section \<open>Spectral transform and magnitude spectrum\<close>

text \<open>
  The transform itself is the function \<open>fft\<close> of the library \<open>fft-js\<close>, which is not
  part of the repository: it is a parameter of the model. \<open>performFFT\<close> offers it the
  windowed data as \<open>[real, imaginary]\<close> pairs and, when that call throws, as a flat array of
  alternating real and imaginary values; \<open>None\<close> stands for a call that throws. The result
  is read either as an array of pairs or as a flat array.
\<close>

datatype fft_input = Phasors "(jsnum \<times> jsnum) list" | Alternating "jsnum list"

datatype fft_output = Pairs "(jsnum \<times> jsnum) list" | Flat "jsnum list"

type_synonym fft_fun = "fft_input \<Rightarrow> fft_output option"

definition phasors :: "jsnum list \<Rightarrow> (jsnum \<times> jsnum) list" where
  "phasors windowed = map (\<lambda>val. (val, Num 0)) windowed"

fun alternating :: "jsnum list \<Rightarrow> jsnum list" where
  "alternating [] = []"
| "alternating (v # vs) = v # Num 0 # alternating vs"

definition call_fft :: "fft_fun \<Rightarrow> jsnum list \<Rightarrow> fft_output option" where
  "call_fft fft windowed =
     (case fft (Phasors (phasors windowed)) of
        Some fftResult \<Rightarrow> Some fftResult
      | None \<Rightarrow> fft (Alternating (alternating windowed)))"

definition magnitude_of :: "jsnum \<Rightarrow> jsnum \<Rightarrow> nat \<Rightarrow> jsnum" where
  "magnitude_of re im len =
     jdiv (jsqrt (jadd (jmul re re) (jmul im im))) (Num (real len))"

text \<open>
  The two loops over the result. \<open>i < fftResult.length / 2\<close> and \<open>i < fftResult.length / 4\<close>
  compare with an exact quotient, so \<open>i\<close> runs up to the quotient rounded up.
\<close>

fun magnitudes_of :: "fft_output \<Rightarrow> nat \<Rightarrow> jsnum list" where
  "magnitudes_of (Pairs fftResult) len =
     map (\<lambda>i. magnitude_of (fst (fftResult ! i)) (snd (fftResult ! i)) len)
       [0..<(length fftResult + 1) div 2]"
| "magnitudes_of (Flat fftResult) len =
     map (\<lambda>i. magnitude_of (at_index fftResult (i * 2)) (at_index fftResult (i * 2 + 1)) len)
       [0..<(length fftResult + 3) div 4]"

text \<open>
  Modelled from the spec: the function \<open>fft\<close> of the library \<open>fft-js\<close> is missing from the
  sources. The spec gives its contract as the discrete Fourier transform
  \<open>X[k] = \<Sum> x[n] * e^(-2\<pi>i * k * n / P)\<close> of the \<open>P\<close> input values, returned as \<open>P\<close>
  complex coefficients. \<open>reference_fft\<close> computes it by direct summation and never throws;
  a flat array is transformed as a real signal. It serves to run the pipeline on concrete
  recordings.
\<close>

definition dft_term :: "(jsnum \<times> jsnum) list \<Rightarrow> nat \<Rightarrow> nat \<Rightarrow> jsnum \<times> jsnum" where
  "dft_term xs k n =
     (let \<theta> = 2 * pi * real k * real n / real (length xs);
          re = fst (xs ! n);
          im = snd (xs ! n)
      in (jadd (jmul re (Num (cos \<theta>))) (jmul im (Num (sin \<theta>))),
          jsub (jmul im (Num (cos \<theta>))) (jmul re (Num (sin \<theta>)))))"

definition jsum :: "jsnum list \<Rightarrow> jsnum" where
  "jsum vs = foldr jadd vs (Num 0)"

definition dft :: "(jsnum \<times> jsnum) list \<Rightarrow> (jsnum \<times> jsnum) list" where
  "dft xs =
     map (\<lambda>k. (jsum (map (\<lambda>n. fst (dft_term xs k n)) [0..<length xs]),
               jsum (map (\<lambda>n. snd (dft_term xs k n)) [0..<length xs])))
       [0..<length xs]"

definition reference_fft :: fft_fun where
  "reference_fft inp =
     (case inp of
        Phasors xs \<Rightarrow> Some (Pairs (dft xs))
      | Alternating vs \<Rightarrow> Some (Pairs (dft (map (\<lambda>v. (v, Num 0)) vs))))"

text \<open>
  The outer \<open>catch\<close> returns \<^verbatim>\<open>Array(Math.ceil(timeData.length / 2)).fill(0)\<close>.
\<close>

definition performFFT :: "fft_fun \<Rightarrow> jsnum list \<Rightarrow> jsnum list" where
  "performFFT fft timeData =
     (case call_fft fft (windowedData timeData) of
        Some fftResult \<Rightarrow> magnitudes_of fftResult (length (windowedData timeData))
      | None \<Rightarrow> replicate ((length timeData + 1) div 2) (Num 0))"

section \<open>Processing a recording\<close>

record AccelerometerData =
  acc_x :: jsnum
  acc_y :: jsnum
  acc_z :: jsnum
  timestamp :: "jsnum option"

record axis_result =
  frequencies :: "jsnum list"
  magnitudes :: "jsnum list"

record fft_results =
  res_x :: axis_result
  res_y :: axis_result
  res_z :: axis_result

text \<open>
  The text shown as debug information, by its kind and the numbers it reports.
\<close>

datatype debug_info =
    Initializing
  | NotEnoughDataPoints
  | RecordingSummary nat jsnum jsnum

record app_state =
  isProcessing :: bool
  debugInfo :: debug_info
  fftResults :: "fft_results option"

definition durationSeconds :: "AccelerometerData list \<Rightarrow> jsnum" where
  "durationSeconds data =
     (let firstTimestamp = or_zero (timestamp (data ! 0));
          lastTimestamp = or_zero (timestamp (data ! (length data - 1)))
      in jdiv (jsub lastTimestamp firstTimestamp) (Num 1000))"

definition samplingRate :: "AccelerometerData list \<Rightarrow> jsnum" where
  "samplingRate data = jdiv (Num (real (length data))) (durationSeconds data)"

definition frequencyBins :: "jsnum \<Rightarrow> nat \<Rightarrow> jsnum list" where
  "frequencyBins rate len =
     map (\<lambda>i. jdiv (jmul (Num (real i)) rate) (Num (real (len * 2)))) [0..<len]"

text \<open>
  \<open>processData\<close> with the state it sets. No operation of its \<open>try\<close> block throws
  (\<open>performFFT\<close> catches the failures of the transform itself), so its \<open>catch\<close> branch is
  never taken; \<open>finally\<close> clears \<open>isProcessing\<close> on both returns.
\<close>

definition processData :: "fft_fun \<Rightarrow> AccelerometerData list \<Rightarrow> app_state \<Rightarrow> app_state" where
  "processData fft data st =
     (if length data < 4 then
        st\<lparr>debugInfo := NotEnoughDataPoints, isProcessing := False\<rparr>
      else
        let fftX = performFFT fft (map acc_x data);
            fftY = performFFT fft (map acc_y data);
            fftZ = performFFT fft (map acc_z data);
            bins = frequencyBins (samplingRate data) (length fftX)
        in st\<lparr>debugInfo := RecordingSummary (length data) (durationSeconds data) (samplingRate data),
              fftResults := Some \<lparr>res_x = \<lparr>frequencies = bins, magnitudes = fftX\<rparr>,
                                  res_y = \<lparr>frequencies = bins, magnitudes = fftY\<rparr>,
                                  res_z = \<lparr>frequencies = bins, magnitudes = fftZ\<rparr>\<rparr>,
              isProcessing := False\<rparr>)"

section \<open>Dominant frequencies\<close>

text \<open>
  An entry of the result. The entries built from the spectrum carry their \<open>index\<close>; the
  filler object \<^verbatim>\<open>{ frequency: 0, magnitude: 0 }\<close> has none.
\<close>

record dominant_entry =
  index :: "nat option"
  magnitude :: jsnum
  frequency :: jsnum

definition clean :: "jsnum \<Rightarrow> jsnum" where
  "clean v = (if isNaN v \<or> \<not> isFinite v then Num 0 else v)"

text \<open>
  \<^verbatim>\<open>magnitudes.slice(1).map((mag, i) => ({ index: i + 1, ... })).filter(item => item.magnitude > 0)\<close>
\<close>

definition indexedMagnitudes :: "jsnum list \<Rightarrow> jsnum list \<Rightarrow> dominant_entry list" where
  "indexedMagnitudes freqs mags =
     filter (\<lambda>item. jgt (magnitude item) (Num 0))
       (map (\<lambda>i. \<lparr>index = Some (i + 1),
                  magnitude = clean (drop 1 mags ! i),
                  frequency = clean (at_index freqs (i + 1))\<rparr>)
          [0..<length (drop 1 mags)])"

text \<open>
  \<open>Array.prototype.sort\<close> with a comparison function: the sort is stable, and \<open>a\<close> is
  placed after \<open>b\<close> when the comparison of \<open>a\<close> with \<open>b\<close> is positive. It is modelled by
  insertion from the right, which moves an element only past the elements it compares
  positive with.
\<close>

fun insert_by :: "('a \<Rightarrow> 'a \<Rightarrow> jsnum) \<Rightarrow> 'a \<Rightarrow> 'a list \<Rightarrow> 'a list" where
  "insert_by cmp a [] = [a]"
| "insert_by cmp a (b # bs) =
     (if jgt (cmp a b) (Num 0) then b # insert_by cmp a bs else a # b # bs)"

definition sort_by :: "('a \<Rightarrow> 'a \<Rightarrow> jsnum) \<Rightarrow> 'a list \<Rightarrow> 'a list" where
  "sort_by cmp xs = foldr (insert_by cmp) xs []"

text \<open>\<^verbatim>\<open>(a, b) => b.magnitude - a.magnitude\<close>\<close>

definition by_magnitude :: "dominant_entry \<Rightarrow> dominant_entry \<Rightarrow> jsnum" where
  "by_magnitude a b = jsub (magnitude b) (magnitude a)"

definition getDominantFrequencies :: "jsnum list \<Rightarrow> jsnum list \<Rightarrow> nat \<Rightarrow> dominant_entry list" where
  "getDominantFrequencies freqs mags count =
     (if length (indexedMagnitudes freqs mags) = 0 then
        replicate count \<lparr>index = None, magnitude = Num 0, frequency = Num 0\<rparr>
      else take count (sort_by by_magnitude (indexedMagnitudes freqs mags)))"

text \<open>The call sites pass no count: the default is \<open>3\<close>.\<close>

definition default_count :: nat where
  "default_count = 3"

section \<open>Notions used in the statements\<close>

text \<open>
  The complex coefficients a result of the transform holds: the pairs themselves, or the
  consecutive pairs of a flat array.
\<close>

fun coefficients :: "fft_output \<Rightarrow> (jsnum \<times> jsnum) list" where
  "coefficients (Pairs ps) = ps"
| "coefficients (Flat vs) = map (\<lambda>i. (vs ! (i * 2), vs ! (i * 2 + 1))) [0..<length vs div 2]"

text \<open>
  The place of an entry in the spectrum, and the order a stable sort by descending
  magnitude produces: larger magnitude first, equal magnitudes in the order of their places.
\<close>

definition position :: "dominant_entry \<Rightarrow> nat" where
  "position e = (case index e of Some i \<Rightarrow> i | None \<Rightarrow> 0)"

definition ranks_before :: "dominant_entry \<Rightarrow> dominant_entry \<Rightarrow> bool" where
  "ranks_before a b =
     (jlt (magnitude b) (magnitude a) \<or> (magnitude a = magnitude b \<and> position a < position b))"

section \<open>Example recordings\<close>

text \<open>A sample of a device at rest, taken at time \<open>t\<close> (milliseconds).\<close>

definition still :: "jsnum \<Rightarrow> AccelerometerData" where
  "still t = \<lparr>acc_x = Num 0, acc_y = Num 0, acc_z = Num 0, timestamp = Some t\<rparr>"

text \<open>The state when a recording stops: processing has been switched on, no result yet.\<close>

definition idle :: app_state where
  "idle = \<lparr>isProcessing = True, debugInfo = Initializing, fftResults = None\<rparr>"

text \<open>Four samples over four seconds: one sample per second.\<close>

definition steady_recording :: "AccelerometerData list" where
  "steady_recording = [still (Num 1000), still (Num 2000), still (Num 3000), still (Num 5000)]"

text \<open>Four samples that all carry the same timestamp.\<close>

definition frozen_clock_recording :: "AccelerometerData list" where
  "frozen_clock_recording =
     [still (Num 1000), still (Num 1000), still (Num 1000), still (Num 1000)]"


section \<open>Properties of the window and the padding\<close>

lemma length_applyHannWindow: "length (applyHannWindow data) = length data"
  by (simp add: applyHannWindow_def)

lemma hannFactor_Num:
  "2 \<le> n \<Longrightarrow> hannFactor i n = Num (0.5 * (1 - cos (2 * pi * real i / (real n - 1))))"
  by (simp add: hannFactor_def jsub_def)

lemma hannFactor_one: "hannFactor 0 (Suc 0) = NaN"
  by (simp add: hannFactor_def jsub_def inf_signed_def)

lemma pad_loop_eq: "pad_loop n xs = xs @ replicate (n - length xs) (Num 0)"
proof (induction n xs rule: pad_loop.induct)
  case (1 n xs)
  show ?case
  proof (cases "length xs < n")
    case True
    then have "n - length xs = Suc (n - Suc (length xs))" by simp
    with 1 True show ?thesis
      by (subst pad_loop.simps) (simp add: replicate_app_Cons_same)
  next
    case False
    then show ?thesis by (subst pad_loop.simps) simp
  qed
qed

text \<open>The padded length by the library's integer logarithm, which computes.\<close>

lemma nextPow2_ceillog2 [code]: "nextPow2 n = (if n = 0 then 0 else 2 ^ ceillog2 n)"
  by (simp add: nextPow2_def ceillog2_def)

lemma nextPow2_ge: "n \<le> nextPow2 n"
  by (simp add: nextPow2_ceillog2 le_two_power_ceillog2)

lemma nextPow2_power: "nextPow2 (2 ^ k) = 2 ^ k"
  by (simp add: nextPow2_ceillog2)

lemma nextPow2_even:
  assumes "2 \<le> n"
  shows "even (nextPow2 n)"
proof -
  have "ceillog2 2 \<le> ceillog2 n" using assms by (rule ceillog2_mono)
  then have "0 < ceillog2 n" by simp
  then show ?thesis using assms by (simp add: nextPow2_ceillog2)
qed

lemma nextPow2_3: "nextPow2 3 = 4"
proof -
  have "ceillog2 3 = 2" by (rule ceillog2_eqI) simp_all
  then show ?thesis by (simp add: nextPow2_ceillog2)
qed

lemma nextPow2_4: "nextPow2 4 = 4"
  using nextPow2_power [of 2] by simp


lemma paddedData_eq:
  "paddedData xs = xs @ replicate (nextPow2 (length xs) - length xs) (Num 0)"
  by (simp add: paddedData_def pad_loop_eq)

lemma length_paddedData: "length (paddedData xs) = nextPow2 (length xs)"
  using nextPow2_ge [of "length xs"] by (simp add: paddedData_eq)

lemma length_windowedData: "length (windowedData xs) = nextPow2 (length xs)"
  by (simp add: windowedData_def length_applyHannWindow length_paddedData)

section \<open>The pipeline on a signal of zeros\<close>

lemma applyHannWindow_zeros:
  "2 \<le> n \<Longrightarrow> applyHannWindow (replicate n (Num 0)) = replicate n (Num 0)"
  by (rule nth_equalityI) (simp_all add: applyHannWindow_def hannFactor_Num)

lemma jsum_zeros: "jsum (replicate n (Num 0)) = Num 0"
  by (induction n) (simp_all add: jsum_def)

lemma dft_zeros: "dft (replicate n (Num 0, Num 0)) = replicate n (Num 0, Num 0)"
proof -
  have t: "\<And>k m. m < n \<Longrightarrow> dft_term (replicate n (Num 0, Num 0)) k m = (Num 0, Num 0)"
    by (simp add: dft_term_def Let_def jsub_def)
  have re: "\<And>k. map (\<lambda>m. fst (dft_term (replicate n (Num 0, Num 0)) k m)) [0..<n]
                  = replicate n (Num 0)"
    by (rule nth_equalityI) (simp_all add: t)
  have im: "\<And>k. map (\<lambda>m. snd (dft_term (replicate n (Num 0, Num 0)) k m)) [0..<n]
                  = replicate n (Num 0)"
    by (rule nth_equalityI) (simp_all add: t)
  show ?thesis
    by (rule nth_equalityI) (simp_all add: dft_def re im jsum_zeros)
qed

lemma phasors_zeros: "phasors (replicate n (Num 0)) = replicate n (Num 0, Num 0)"
  by (simp add: phasors_def)

lemma magnitude_of_zero: "0 < n \<Longrightarrow> magnitude_of (Num 0) (Num 0) n = Num 0"
  by (simp add: magnitude_of_def)

lemma windowedData_zeros:
  assumes "2 \<le> n"
  shows "windowedData (replicate n (Num 0)) = replicate (nextPow2 n) (Num 0)"
proof -
  have "paddedData (replicate n (Num 0)) = replicate (nextPow2 n) (Num 0)"
    using nextPow2_ge [of n] by (simp add: paddedData_eq flip: replicate_add)
  moreover have "2 \<le> nextPow2 n" using assms nextPow2_ge [of n] by linarith
  ultimately show ?thesis by (simp add: windowedData_def applyHannWindow_zeros)
qed

lemma performFFT_reference_zeros:
  assumes "2 \<le> n"
  shows "performFFT reference_fft (replicate n (Num 0)) = replicate (nextPow2 n div 2) (Num 0)"
proof -
  have p: "0 < nextPow2 n" using assms nextPow2_ge [of n] by linarith
  have e: "even (nextPow2 n)" using assms by (rule nextPow2_even)
  have "call_fft reference_fft (replicate (nextPow2 n) (Num 0))
          = Some (Pairs (replicate (nextPow2 n) (Num 0, Num 0)))"
    by (simp add: call_fft_def reference_fft_def phasors_zeros dft_zeros)
  then show ?thesis
    using p e
    by (auto simp: performFFT_def windowedData_zeros [OF assms] magnitude_of_zero
             intro!: nth_equalityI)
qed

lemma performFFT_reference_zeros4:
  "performFFT reference_fft [Num 0, Num 0, Num 0, Num 0] = [Num 0, Num 0]"
proof -
  have r: "replicate 4 (Num 0) = [Num 0, Num 0, Num 0, Num 0]"
    by (simp add: eval_nat_numeral)
  have "nextPow2 4 div 2 = Suc (Suc 0)"
    by (simp add: nextPow2_4)
  then have "replicate (nextPow2 4 div 2) (Num 0) = [Num 0, Num 0]"
    by (simp only: replicate.simps)
  then show ?thesis
    using performFFT_reference_zeros [of 4] by (simp only: r)
qed




section \<open>Properties of \<open>processData\<close>\<close>

lemma processData_enough:
  assumes "4 \<le> length data"
  shows "processData fft data st =
           st\<lparr>debugInfo := RecordingSummary (length data) (durationSeconds data) (samplingRate data),
              fftResults := Some
                \<lparr>res_x = \<lparr>frequencies = frequencyBins (samplingRate data)
                                           (length (performFFT fft (map acc_x data))),
                          magnitudes = performFFT fft (map acc_x data)\<rparr>,
                 res_y = \<lparr>frequencies = frequencyBins (samplingRate data)
                                           (length (performFFT fft (map acc_x data))),
                          magnitudes = performFFT fft (map acc_y data)\<rparr>,
                 res_z = \<lparr>frequencies = frequencyBins (samplingRate data)
                                           (length (performFFT fft (map acc_x data))),
                          magnitudes = performFFT fft (map acc_z data)\<rparr>\<rparr>,
              isProcessing := False\<rparr>"
  using assms by (simp add: processData_def Let_def)

lemma steady_rate:
  "durationSeconds steady_recording = Num 4 \<and> samplingRate steady_recording = Num 1"
  by (simp add: samplingRate_def durationSeconds_def steady_recording_def still_def jsub_def)

lemma frozen_rate:
  "durationSeconds frozen_clock_recording = Num 0 \<and> samplingRate frozen_clock_recording = PosInf"
  by (simp add: samplingRate_def durationSeconds_def frozen_clock_recording_def still_def jsub_def
        inf_signed_def)

lemma frequencyBins_2:
  "frequencyBins r (Suc (Suc 0)) = [jdiv (jmul (Num 0) r) (Num 4), jdiv (jmul (Num 1) r) (Num 4)]"
  by (simp add: frequencyBins_def upt_rec)


lemma frequencyBins_nth:
  "i < n \<Longrightarrow> frequencyBins r n ! i = jdiv (jmul (Num (real i)) r) (Num (real (n * 2)))"
  by (simp add: frequencyBins_def)

lemma frequencyBins_nth_finite:
  "i < n \<Longrightarrow> frequencyBins (Num r) n ! i = Num (real i * r / (2 * real n))"
  by (simp add: frequencyBins_def mult.commute)

section \<open>Properties of the sort and of the candidate entries\<close>

lemma jlt_irrefl: "\<not> jlt a a"
  by (cases a) simp_all

lemma set_insert_by: "set (insert_by cmp a bs) = insert a (set bs)"
  by (induction bs) auto

lemma length_insert_by: "length (insert_by cmp a bs) = Suc (length bs)"
  by (induction bs) auto

lemma set_sort_by: "set (sort_by cmp xs) = set xs"
  by (induction xs) (simp_all add: sort_by_def set_insert_by)

lemma length_sort_by: "length (sort_by cmp xs) = length xs"
  by (induction xs) (simp_all add: sort_by_def length_insert_by)

lemma by_magnitude_positive:
  assumes "isFinite (magnitude a)" and "isFinite (magnitude b)"
  shows "jgt (by_magnitude a b) (Num 0) = jlt (magnitude a) (magnitude b)"
proof -
  from assms obtain x y where "magnitude a = Num x" "magnitude b = Num y"
    by (cases "magnitude a"; cases "magnitude b") simp_all
  then show ?thesis by (simp add: by_magnitude_def jsub_def jgt_def)
qed

lemma ranks_before_step:
  assumes "isFinite (magnitude a)" and "isFinite (magnitude b)" and "isFinite (magnitude c)"
      and "\<not> jlt (magnitude a) (magnitude b)" and "ranks_before b c" and "position a < position c"
  shows "ranks_before a c"
proof -
  from assms(1-3) obtain x y z
    where "magnitude a = Num x" "magnitude b = Num y" "magnitude c = Num z"
    by (cases "magnitude a"; cases "magnitude b"; cases "magnitude c") simp_all
  then show ?thesis
    using assms(4-6) by (auto simp: ranks_before_def)
qed

lemma ranks_before_first:
  assumes "isFinite (magnitude a)" and "isFinite (magnitude b)"
      and "\<not> jlt (magnitude a) (magnitude b)" and "position a < position b"
  shows "ranks_before a b"
proof -
  from assms(1,2) obtain x y where "magnitude a = Num x" "magnitude b = Num y"
    by (cases "magnitude a"; cases "magnitude b") simp_all
  then show ?thesis
    using assms(3,4) by (auto simp: ranks_before_def)
qed

text \<open>
  Inserting an entry that stood before all the others in the spectrum keeps the list in
  rank order: it passes the entries of larger magnitude only.
\<close>

lemma sorted_insert_by:
  assumes "sorted_wrt ranks_before bs"
      and "isFinite (magnitude a)"
      and "\<forall>b \<in> set bs. isFinite (magnitude b)"
      and "\<forall>b \<in> set bs. position a < position b"
  shows "sorted_wrt ranks_before (insert_by by_magnitude a bs)"
  using assms
proof (induction bs)
  case Nil
  then show ?case by simp
next
  case (Cons b bs)
  show ?case
  proof (cases "jlt (magnitude a) (magnitude b)")
    case True
    then have "ranks_before b a" by (simp add: ranks_before_def)
    with Cons True show ?thesis
      by (simp add: by_magnitude_positive set_insert_by)
  next
    case False
    have "ranks_before a c" if "c \<in> set (b # bs)" for c
    proof (cases "c = b")
      case True
      with Cons.prems False show ?thesis by (simp add: ranks_before_first)
    next
      case False
      with that have c: "c \<in> set bs" by simp
      with Cons.prems have "ranks_before b c" by simp
      with Cons.prems c \<open>\<not> jlt (magnitude a) (magnitude b)\<close> show ?thesis
        by (intro ranks_before_step [of a b c]) simp_all
    qed
    with Cons.prems False show ?thesis
      by (simp add: by_magnitude_positive)
  qed
qed

lemma sorted_sort_by:
  assumes "sorted_wrt (\<lambda>a b. position a < position b) xs"
      and "\<forall>e \<in> set xs. isFinite (magnitude e)"
  shows "sorted_wrt ranks_before (sort_by by_magnitude xs)"
  using assms
proof (induction xs)
  case Nil
  then show ?case by (simp add: sort_by_def)
next
  case (Cons a xs)
  then have "sorted_wrt ranks_before (sort_by by_magnitude xs)" by simp
  then have "sorted_wrt ranks_before (insert_by by_magnitude a (sort_by by_magnitude xs))"
    using Cons.prems by (intro sorted_insert_by) (simp_all add: set_sort_by)
  then show ?case by (simp add: sort_by_def)
qed

lemma sorted_wrt_replicate_same: "R x x \<Longrightarrow> sorted_wrt R (replicate n x)"
  by (induction n) auto

lemma clean_finite: "isFinite (clean v)"
  by (cases v) (simp_all add: clean_def)

lemma clean_positive: "jgt (clean v) (Num 0) \<Longrightarrow> clean v = v"
  by (cases v) (simp_all add: clean_def jgt_def)

lemma indexedMagnitudes_member:
  "e \<in> set (indexedMagnitudes freqs mags) \<longleftrightarrow>
     (\<exists>i. 1 \<le> i \<and> i < length mags \<and> jgt (clean (mags ! i)) (Num 0) \<and>
          e = \<lparr>index = Some i, magnitude = clean (mags ! i), frequency = clean (at_index freqs i)\<rparr>)"
proof
  assume "e \<in> set (indexedMagnitudes freqs mags)"
  then obtain k where "k < length mags - 1" "jgt (clean (mags ! Suc k)) (Num 0)"
      "e = \<lparr>index = Some (Suc k), magnitude = clean (mags ! Suc k),
            frequency = clean (at_index freqs (Suc k))\<rparr>"
    by (auto simp: indexedMagnitudes_def)
  then show "\<exists>i. 1 \<le> i \<and> i < length mags \<and> jgt (clean (mags ! i)) (Num 0) \<and>
          e = \<lparr>index = Some i, magnitude = clean (mags ! i), frequency = clean (at_index freqs i)\<rparr>"
    by (intro exI [of _ "Suc k"]) auto
next
  assume "\<exists>i. 1 \<le> i \<and> i < length mags \<and> jgt (clean (mags ! i)) (Num 0) \<and>
          e = \<lparr>index = Some i, magnitude = clean (mags ! i), frequency = clean (at_index freqs i)\<rparr>"
  then obtain i where i: "1 \<le> i" "i < length mags" "jgt (clean (mags ! i)) (Num 0)"
      "e = \<lparr>index = Some i, magnitude = clean (mags ! i), frequency = clean (at_index freqs i)\<rparr>"
    by blast
  then obtain k where k: "i = Suc k" by (cases i) simp_all
  with i have "k \<in> set [0..<length (drop 1 mags)]" by simp
  with i k show "e \<in> set (indexedMagnitudes freqs mags)"
    unfolding indexedMagnitudes_def by (auto simp: image_iff intro!: bexI [of _ k])
qed

lemma indexedMagnitudes_finite:
  "e \<in> set (indexedMagnitudes freqs mags) \<Longrightarrow> isFinite (magnitude e)"
  by (auto simp: indexedMagnitudes_member clean_finite)

lemma indexedMagnitudes_positions:
  "sorted_wrt (\<lambda>a b. position a < position b) (indexedMagnitudes freqs mags)"
  unfolding indexedMagnitudes_def
  by (intro sorted_wrt_filter) (simp add: sorted_wrt_map position_def)

text \<open>
  The place of an entry in a list in rank order: it is among the first \<open>n\<close> exactly when
  fewer than \<open>n\<close> entries rank before it.
\<close>

lemma ranks_before_asym: "ranks_before a b \<Longrightarrow> \<not> ranks_before b a"
  by (cases "magnitude a"; cases "magnitude b") (auto simp: ranks_before_def)

lemma count_insert_by:
  "length (filter P (insert_by cmp a bs)) = length (filter P (a # bs))"
  by (induction bs) auto

lemma count_sort_by: "length (filter P (sort_by cmp xs)) = length (filter P xs)"
  by (induction xs) (simp_all add: sort_by_def count_insert_by)

lemma in_take_iff_rank:
  assumes "sorted_wrt R xs" and "\<And>a b. R a b \<Longrightarrow> \<not> R b a" and "e \<in> set xs"
  shows "e \<in> set (take n xs) \<longleftrightarrow> length (filter (\<lambda>c. R c e) xs) < n"
  using assms(1,3)
proof (induction xs arbitrary: n)
  case Nil
  then show ?case by simp
next
  case (Cons x xs)
  show ?case
  proof (cases n)
    case 0
    then show ?thesis by simp
  next
    case (Suc k)
    show ?thesis
    proof (cases "e = x")
      case True
      have "\<not> R x x" using assms(2) by blast
      moreover have "\<not> R c x" if "c \<in> set xs" for c
        using that Cons.prems(1) assms(2) by auto
      ultimately have "filter (\<lambda>c. R c e) (x # xs) = []"
        using True by (auto simp: filter_empty_conv)
      then show ?thesis using True Suc by simp
    next
      case False
      with Cons.prems have e: "e \<in> set xs" and r: "R x e" and s: "sorted_wrt R xs" by auto
      from Cons.IH [OF s e]
      have "e \<in> set (take k xs) \<longleftrightarrow> length (filter (\<lambda>c. R c e) xs) < k" .
      then show ?thesis using False r Suc by simp
    qed
  qed
qed

text \<open>
  The entries that rank before an entry of index \<open>i\<close> and magnitude \<open>m > 0\<close>, counted in
  the spectrum itself: the indices from \<open>1\<close> on with a finite magnitude above \<open>m\<close>, or equal
  to \<open>m\<close> at a smaller index.
\<close>

lemma indexedMagnitudes_rank:
  assumes "0 < m"
  shows "length (filter (\<lambda>c. ranks_before c \<lparr>index = Some i, magnitude = Num m, frequency = f\<rparr>)
                  (indexedMagnitudes freqs mags)) =
         length (filter (\<lambda>j. case mags ! j of Num v \<Rightarrow> m < v \<or> (v = m \<and> j < i) | _ \<Rightarrow> False)
                  [1..<length mags])"
proof -
  let ?e = "\<lparr>index = Some i, magnitude = Num m, frequency = f\<rparr>"
  let ?f = "\<lambda>k. \<lparr>index = Some (k + 1), magnitude = clean (drop 1 mags ! k),
                   frequency = clean (at_index freqs (k + 1))\<rparr>"
  let ?g = "\<lambda>j. case mags ! j of Num v \<Rightarrow> m < v \<or> (v = m \<and> j < i) | _ \<Rightarrow> False"
  have u: "[1..<length mags] = map Suc [0..<length mags - 1]"
    by (cases "length mags") (simp_all add: map_Suc_upt del: upt_Suc)
  have p: "(jgt (magnitude (?f k)) (Num 0) \<and> ranks_before (?f k) ?e) = ?g (Suc k)"
    if "k < length mags - 1" for k
  proof -
    from that have d: "drop (Suc 0) mags ! k = mags ! Suc k" by simp
    show ?thesis
      using assms
      by (cases "mags ! Suc k") (auto simp: d clean_def jgt_def ranks_before_def position_def)
  qed
  have "length (filter (\<lambda>c. ranks_before c ?e) (indexedMagnitudes freqs mags)) =
        length (filter (\<lambda>k. jgt (magnitude (?f k)) (Num 0) \<and> ranks_before (?f k) ?e)
                  [0..<length mags - 1])"
    by (simp add: indexedMagnitudes_def filter_map o_def conj_commute)
  also have "\<dots> = length (filter (\<lambda>k. ?g (Suc k)) [0..<length mags - 1])"
    by (rule arg_cong [where f = length], rule filter_cong) (use p in auto)
  also have "\<dots> = length (filter ?g [1..<length mags])"
    by (subst u) (simp add: filter_map o_def)
  finally show ?thesis .
qed

lemma indexedMagnitudes_example:
  "indexedMagnitudes [Num 0, Num 1, Num 2, Num 3, Num 4] [Num 9, Num 2, Num 5, Num 2, Num 5] =
     [\<lparr>index = Some 1, magnitude = Num 2, frequency = Num 1\<rparr>,
      \<lparr>index = Some 2, magnitude = Num 5, frequency = Num 2\<rparr>,
      \<lparr>index = Some 3, magnitude = Num 2, frequency = Num 3\<rparr>,
      \<lparr>index = Some 4, magnitude = Num 5, frequency = Num 4\<rparr>]"
  by (simp add: indexedMagnitudes_def clean_def at_index_def jgt_def)

lemma getDominantFrequencies_example:
  "getDominantFrequencies [Num 0, Num 1, Num 2, Num 3, Num 4] [Num 9, Num 2, Num 5, Num 2, Num 5] 3 =
     [\<lparr>index = Some 2, magnitude = Num 5, frequency = Num 2\<rparr>,
      \<lparr>index = Some 4, magnitude = Num 5, frequency = Num 4\<rparr>,
      \<lparr>index = Some 1, magnitude = Num 2, frequency = Num 1\<rparr>]"
  by (simp add: getDominantFrequencies_def indexedMagnitudes_example sort_by_def by_magnitude_def
        jsub_def jgt_def)

section \<open>The frequency axis\<close>

text \<open>
  C1, as the spec states it: with a magnitude spectrum of \<open>M = P / 2\<close> entries the frequency
  of bin \<open>i\<close> is \<open>i * R / (P * 2)\<close>. It fails on the recording \<open>steady_recording\<close>: four
  samples over four seconds give the rate \<open>R = 1\<close>, the padded length is \<open>P = 4\<close>, the
  spectrum has \<open>M = 2\<close> entries, and bin \<open>1\<close> is at \<open>1 / 4\<close>, not at \<open>1 * 1 / (4 * 2)\<close>.
\<close>

theorem frequency_axis_counterexample:
  "(case fftResults (processData reference_fft steady_recording idle) of
      None \<Rightarrow> False
    | Some res \<Rightarrow>
        length (magnitudes (res_x res)) = 2 \<and>
        length (paddedData (map acc_x steady_recording)) = 4 \<and>
        frequencies (res_x res) ! 1 = Num (1 / 4) \<and>
        frequencies (res_x res) ! 1 \<noteq>
          jdiv (jmul (Num 1) (samplingRate steady_recording))
               (Num (real (length (paddedData (map acc_x steady_recording)) * 2))))"
proof -
  have m: "map acc_x steady_recording = [Num 0, Num 0, Num 0, Num 0]"
    by (simp add: steady_recording_def still_def)
  have "length [Num 0, Num 0, Num 0, Num 0] = 4" by simp
  then have l: "length (paddedData [Num 0, Num 0, Num 0, Num 0]) = 4"
    unfolding length_paddedData by (simp only: nextPow2_4)
  have n: "4 \<le> length steady_recording" by (simp add: steady_recording_def)
  show ?thesis
    by (simp add: processData_enough [OF n] m l performFFT_reference_zeros4 steady_rate
          frequencyBins_2)
qed

text \<open>
  C1, amended: for every recording of at least four samples, whatever the transform, the
  three axes share one frequency axis of the length \<open>M\<close> of the x axis's magnitude spectrum,
  and its entry \<open>i\<close> is \<open>i * R / (M * 2)\<close> for every \<open>i < M\<close>, with \<open>R\<close> the effective sample
  rate; for a finite rate \<open>r\<close> that is the number \<open>i * r / (2 * M)\<close>. With \<open>M = P / 2\<close> this is
  \<open>i * R / P\<close>.
\<close>

theorem processData_frequency_axis:
  assumes "4 \<le> length data"
  shows "\<exists>res. fftResults (processData fft data st) = Some res \<and>
           magnitudes (res_x res) = performFFT fft (map acc_x data) \<and>
           frequencies (res_y res) = frequencies (res_x res) \<and>
           frequencies (res_z res) = frequencies (res_x res) \<and>
           length (frequencies (res_x res)) = length (magnitudes (res_x res)) \<and>
           (\<forall>i < length (magnitudes (res_x res)).
              frequencies (res_x res) ! i =
                jdiv (jmul (Num (real i)) (samplingRate data))
                     (Num (real (length (magnitudes (res_x res)) * 2))) \<and>
              (\<forall>r. samplingRate data = Num r \<longrightarrow>
                 frequencies (res_x res) ! i =
                   Num (real i * r / (2 * real (length (magnitudes (res_x res)))))))"
proof -
  define fftX where "fftX = performFFT fft (map acc_x data)"
  define bins where "bins = frequencyBins (samplingRate data) (length fftX)"
  define res where
    "res = \<lparr>res_x = \<lparr>frequencies = bins, magnitudes = fftX\<rparr>,
            res_y = \<lparr>frequencies = bins, magnitudes = performFFT fft (map acc_y data)\<rparr>,
            res_z = \<lparr>frequencies = bins, magnitudes = performFFT fft (map acc_z data)\<rparr>\<rparr>"
  have r: "fftResults (processData fft data st) = Some res"
    by (simp add: processData_enough [OF assms] res_def bins_def fftX_def)
  have l: "length bins = length fftX"
    by (simp add: bins_def frequencyBins_def)
  have n: "\<forall>i < length fftX.
             bins ! i = jdiv (jmul (Num (real i)) (samplingRate data))
                             (Num (real (length fftX * 2))) \<and>
             (\<forall>r. samplingRate data = Num r \<longrightarrow>
                  bins ! i = Num (real i * r / (2 * real (length fftX))))"
  proof (intro allI impI conjI)
    fix i assume "i < length fftX"
    then show "bins ! i = jdiv (jmul (Num (real i)) (samplingRate data))
                               (Num (real (length fftX * 2)))"
      unfolding bins_def by (rule frequencyBins_nth)
  next
    fix i r assume "i < length fftX" and "samplingRate data = Num r"
    then show "bins ! i = Num (real i * r / (2 * real (length fftX)))"
      unfolding bins_def by (simp only: frequencyBins_nth_finite)
  qed
  have s: "magnitudes (res_x res) = fftX" "frequencies (res_x res) = bins"
          "frequencies (res_y res) = bins" "frequencies (res_z res) = bins"
    by (simp_all add: res_def)
  show ?thesis
    unfolding fftX_def [symmetric]
    by (rule exI [of _ res], unfold s) (use r l n in blast)
qed

text \<open>
  The amended C1 on \<open>steady_recording\<close>: the spectrum of the x axis has two entries and
  bin \<open>1\<close> is at \<open>1 * 1 / (2 * 2)\<close>.
\<close>

theorem processData_frequency_axis_witness:
  "\<exists>res. fftResults (processData reference_fft steady_recording idle) = Some res \<and>
         magnitudes (res_x res) = [Num 0, Num 0] \<and>
         frequencies (res_x res) ! 1 = Num (1 / 4)"
proof -
  have m: "map acc_x steady_recording = [Num 0, Num 0, Num 0, Num 0]"
    by (simp add: steady_recording_def still_def)
  have n: "4 \<le> length steady_recording" by (simp add: steady_recording_def)
  from processData_frequency_axis [OF n, of reference_fft idle]
  obtain res where r: "fftResults (processData reference_fft steady_recording idle) = Some res"
      "magnitudes (res_x res) = performFFT reference_fft (map acc_x steady_recording)"
      "\<forall>i < length (magnitudes (res_x res)).
         \<forall>r. samplingRate steady_recording = Num r \<longrightarrow>
            frequencies (res_x res) ! i
              = Num (real i * r / (2 * real (length (magnitudes (res_x res)))))"
    by blast
  have "magnitudes (res_x res) = [Num 0, Num 0]"
    using r(2) by (simp add: m performFFT_reference_zeros4)
  moreover from this r(3) have "frequencies (res_x res) ! 1 = Num (1 / 4)"
    by (simp add: steady_rate)
  ultimately show ?thesis using r(1) by blast
qed

section \<open>Recordings without duration\<close>

text \<open>
  C2, as the spec states it: a recording whose duration is not positive ends in an error,
  the rest of the pipeline does not run, and no infinite rate is produced. It fails on
  \<open>frozen_clock_recording\<close>, four samples with one timestamp: the duration is \<open>0\<close>, the rate
  is \<open>Infinity\<close>, and the result of the whole pipeline is stored for all three axes, with a
  frequency axis of NaN and \<open>Infinity\<close>.
\<close>

theorem degenerate_recording_counterexample:
  "durationSeconds frozen_clock_recording = Num 0 \<and>
   samplingRate frozen_clock_recording = PosInf \<and>
   processData reference_fft frozen_clock_recording idle =
     \<lparr>isProcessing = False,
      debugInfo = RecordingSummary 4 (Num 0) PosInf,
      fftResults = Some
        \<lparr>res_x = \<lparr>frequencies = [NaN, PosInf], magnitudes = [Num 0, Num 0]\<rparr>,
         res_y = \<lparr>frequencies = [NaN, PosInf], magnitudes = [Num 0, Num 0]\<rparr>,
         res_z = \<lparr>frequencies = [NaN, PosInf], magnitudes = [Num 0, Num 0]\<rparr>\<rparr>\<rparr>"
proof -
  have m: "map acc_x frozen_clock_recording = [Num 0, Num 0, Num 0, Num 0]"
          "map acc_y frozen_clock_recording = [Num 0, Num 0, Num 0, Num 0]"
          "map acc_z frozen_clock_recording = [Num 0, Num 0, Num 0, Num 0]"
    by (simp_all add: frozen_clock_recording_def still_def)
  have n: "4 \<le> length frozen_clock_recording" by (simp add: frozen_clock_recording_def)
  have l: "length frozen_clock_recording = 4" by (simp add: frozen_clock_recording_def)
  show ?thesis
    by (simp add: processData_enough [OF n] m l performFFT_reference_zeros4 frozen_rate
          frequencyBins_2 idle_def inf_signed_def)
qed

text \<open>
  C2, amended: for every recording of at least four samples whose duration is not
  positive, no error is signalled and the pipeline runs as for any other recording: the
  debug information is the summary of the recording and the spectra of all three axes are
  stored. The effective sample rate is never NaN; it is \<open>Infinity\<close> when the duration is
  \<open>0\<close>, and a finite number that is not positive when the duration is negative.
\<close>

theorem processData_nonpositive_duration:
  assumes "4 \<le> length data" and "jle (durationSeconds data) (Num 0)"
  shows "(if durationSeconds data = Num 0 then samplingRate data = PosInf
          else \<exists>r. samplingRate data = Num r \<and> r \<le> 0) \<and>
         \<not> isNaN (samplingRate data) \<and>
         debugInfo (processData fft data st) =
           RecordingSummary (length data) (durationSeconds data) (samplingRate data) \<and>
         (\<exists>res. fftResults (processData fft data st) = Some res \<and>
            magnitudes (res_x res) = performFFT fft (map acc_x data) \<and>
            magnitudes (res_y res) = performFFT fft (map acc_y data) \<and>
            magnitudes (res_z res) = performFFT fft (map acc_z data) \<and>
            frequencies (res_x res) =
              frequencyBins (samplingRate data) (length (magnitudes (res_x res))))"
proof -
  have "durationSeconds data = NegInf \<or> (\<exists>d. durationSeconds data = Num d \<and> d \<le> 0)"
    using assms(2) by (cases "durationSeconds data") (auto simp: jle_def)
  then have a: "if durationSeconds data = Num 0 then samplingRate data = PosInf
          else \<exists>r. samplingRate data = Num r \<and> r \<le> 0"
    using assms(1)
    by (auto simp: samplingRate_def inf_signed_def divide_nonneg_nonpos)
  then have b: "\<not> isNaN (samplingRate data)"
    by (auto split: if_splits)
  show ?thesis
    using a b by (simp add: processData_enough [OF assms(1)])
qed

text \<open>The amended C2 on \<open>frozen_clock_recording\<close>.\<close>

theorem processData_nonpositive_duration_witness:
  "samplingRate frozen_clock_recording = PosInf \<and>
   debugInfo (processData reference_fft frozen_clock_recording idle)
     = RecordingSummary 4 (Num 0) PosInf \<and>
   (\<exists>res. fftResults (processData reference_fft frozen_clock_recording idle) = Some res \<and>
      magnitudes (res_x res) = [Num 0, Num 0] \<and> frequencies (res_x res) = [NaN, PosInf])"
proof -
  have m: "map acc_x frozen_clock_recording = [Num 0, Num 0, Num 0, Num 0]"
    by (simp add: frozen_clock_recording_def still_def)
  have n: "4 \<le> length frozen_clock_recording" by (simp add: frozen_clock_recording_def)
  have l: "length frozen_clock_recording = 4" by (simp add: frozen_clock_recording_def)
  have d: "jle (durationSeconds frozen_clock_recording) (Num 0)"
    by (simp add: frozen_rate jle_def)
  from processData_nonpositive_duration [OF n d, of reference_fft idle]
  obtain res where r: "samplingRate frozen_clock_recording = PosInf"
      "debugInfo (processData reference_fft frozen_clock_recording idle) =
         RecordingSummary (length frozen_clock_recording) (durationSeconds frozen_clock_recording)
           (samplingRate frozen_clock_recording)"
      "fftResults (processData reference_fft frozen_clock_recording idle) = Some res"
      "magnitudes (res_x res) = performFFT reference_fft (map acc_x frozen_clock_recording)"
      "frequencies (res_x res) =
         frequencyBins (samplingRate frozen_clock_recording) (length (magnitudes (res_x res)))"
    by (auto simp: frozen_rate)
  have a: "magnitudes (res_x res) = [Num 0, Num 0]"
    using r(4) by (simp add: m performFFT_reference_zeros4)
  have b: "frequencies (res_x res) = [NaN, PosInf]"
    using r(5) by (simp add: a frozen_rate frequencyBins_2 inf_signed_def)
  show ?thesis
    using r(1,2,3) a b by (simp add: l frozen_rate)
qed

section \<open>A spectrum without peaks\<close>

text \<open>
  C3: when fewer than \<open>K\<close> entries survive the filter, the extractor returns the survivors
  and nothing else; a spectrum of zeros gives an empty list. The source's own comment says
  so (\<^verbatim>\<open>// If we have no valid data, return empty array\<close>), but the code returns \<open>K\<close>
  filler entries: on a spectrum of four zeros, and on the spectrum that the pipeline
  computes for the motionless \<open>steady_recording\<close>, the result with the default count is
  three entries of frequency \<open>0\<close> and magnitude \<open>0\<close>.
\<close>

theorem getDominantFrequencies_zero_spectrum:
  "getDominantFrequencies [Num 0, Num 1, Num 2, Num 3] [Num 0, Num 0, Num 0, Num 0] default_count =
     [\<lparr>index = None, magnitude = Num 0, frequency = Num 0\<rparr>,
      \<lparr>index = None, magnitude = Num 0, frequency = Num 0\<rparr>,
      \<lparr>index = None, magnitude = Num 0, frequency = Num 0\<rparr>] \<and>
   (case fftResults (processData reference_fft steady_recording idle) of
      None \<Rightarrow> False
    | Some res \<Rightarrow>
        magnitudes (res_x res) = [Num 0, Num 0] \<and>
        getDominantFrequencies (frequencies (res_x res)) (magnitudes (res_x res)) default_count =
          [\<lparr>index = None, magnitude = Num 0, frequency = Num 0\<rparr>,
           \<lparr>index = None, magnitude = Num 0, frequency = Num 0\<rparr>,
           \<lparr>index = None, magnitude = Num 0, frequency = Num 0\<rparr>])"
proof -
  have r: "replicate default_count \<lparr>index = None, magnitude = Num 0, frequency = Num 0\<rparr> =
             [\<lparr>index = None, magnitude = Num 0, frequency = Num 0\<rparr>,
              \<lparr>index = None, magnitude = Num 0, frequency = Num 0\<rparr>,
              \<lparr>index = None, magnitude = Num 0, frequency = Num 0\<rparr>]"
    by (simp add: default_count_def eval_nat_numeral)
  have e: "indexedMagnitudes freqs [Num 0, Num 0, Num 0, Num 0] = []"
          "indexedMagnitudes freqs [Num 0, Num 0] = []" for freqs
    by (simp_all add: indexedMagnitudes_def clean_def jgt_def)
  have m: "map acc_x steady_recording = [Num 0, Num 0, Num 0, Num 0]"
    by (simp add: steady_recording_def still_def)
  have n: "4 \<le> length steady_recording" by (simp add: steady_recording_def)
  show ?thesis
    by (simp add: getDominantFrequencies_def e r processData_enough [OF n] m
          performFFT_reference_zeros4)
qed

section \<open>The window\<close>

text \<open>
  C4, as the spec states it: for a single value the zero denominator is guarded and the
  result is the value itself, never NaN. It fails on the sequence \<open>[5]\<close>: the factor is
  \<open>0.5 * (1 - cos (0 / 0))\<close> and the result is NaN.
\<close>

theorem applyHannWindow_single_counterexample:
  "\<not> (applyHannWindow [Num 5] = [Num 5]) \<and> isNaN (applyHannWindow [Num 5] ! 0)"
  by (simp add: applyHannWindow_def hannFactor_one)

text \<open>
  C4, amended: the window returns a sequence of the length of its input; for an input of
  length \<open>N \<ge> 2\<close> its element \<open>i\<close> is the input's element \<open>i\<close> multiplied by
  \<open>0.5 * (1 - cos (2 * pi * i / (N - 1)))\<close>; for \<open>N = 1\<close> the zero denominator is not guarded
  and the one element of the result is NaN.
\<close>

theorem applyHannWindow_scales:
  "length (applyHannWindow data) = length data \<and>
   (2 \<le> length data \<and> i < length data \<longrightarrow>
      applyHannWindow data ! i =
        jmul (data ! i) (Num (0.5 * (1 - cos (2 * pi * real i / (real (length data) - 1)))))) \<and>
   (length data = 1 \<longrightarrow> applyHannWindow data = [NaN])"
proof (intro conjI impI)
  show "length (applyHannWindow data) = length data"
    by (rule length_applyHannWindow)
next
  assume "2 \<le> length data \<and> i < length data"
  then show "applyHannWindow data ! i =
        jmul (data ! i) (Num (0.5 * (1 - cos (2 * pi * real i / (real (length data) - 1)))))"
    by (simp add: applyHannWindow_def hannFactor_Num)
next
  assume "length data = 1"
  then obtain v where d: "data = [v]"
    by (cases data) simp_all
  have "jmul v NaN = NaN" by (cases v) simp_all
  then show "applyHannWindow data = [NaN]"
    by (simp add: d applyHannWindow_def hannFactor_one)
qed

text \<open>
  The amended C4 on \<open>[3, 4, 5]\<close>, whose middle element meets the factor
  \<open>0.5 * (1 - cos pi) = 1\<close>, and on \<open>[7]\<close>.
\<close>

theorem applyHannWindow_scales_witness:
  "applyHannWindow [Num 3, Num 4, Num 5] ! 1 = Num 4 \<and> applyHannWindow [Num 7] = [NaN]"
  using applyHannWindow_scales [of "[Num 3, Num 4, Num 5]" 1]
        applyHannWindow_scales [of "[Num 7]" 0]
  by simp

section \<open>Too few samples\<close>

text \<open>
  C5: for a buffer of fewer than four samples the analysis is skipped. The state after
  \<open>processData\<close> is the state before it with the debug message set and processing switched
  off: it depends neither on the transform nor on the samples, so no rate was estimated and
  no spectrum computed, and the stored results are the ones there were.
\<close>

theorem processData_too_few_samples:
  assumes "length data < 4"
  shows "processData fft data st = st\<lparr>debugInfo := NotEnoughDataPoints, isProcessing := False\<rparr> \<and>
         fftResults (processData fft data st) = fftResults st"
  using assms by (simp add: processData_def)

text \<open>C5 on a buffer of three samples.\<close>

theorem processData_too_few_samples_witness:
  "processData reference_fft [still (Num 1000), still (Num 1100), still (Num 1200)] idle
     = \<lparr>isProcessing = False, debugInfo = NotEnoughDataPoints, fftResults = None\<rparr>"
  using processData_too_few_samples
          [of "[still (Num 1000), still (Num 1100), still (Num 1200)]" reference_fft idle]
  by (simp add: idle_def)

section \<open>The order of the dominant frequencies\<close>

text \<open>
  C6: the result of the extractor never holds the entry of index \<open>0\<close>: an entry that
  carries an index carries one from \<open>1\<close> on, with the magnitude the spectrum has there. The
  result is sorted by descending magnitude, and of two entries of equal magnitude the one
  that stood first in the spectrum comes first.
\<close>

theorem getDominantFrequencies_order:
  "(\<forall>e \<in> set (getDominantFrequencies freqs mags count).
      index e \<noteq> Some 0 \<and>
      (\<forall>i. index e = Some i \<longrightarrow> 1 \<le> i \<and> i < length mags \<and> magnitude e = mags ! i)) \<and>
   sorted_wrt (\<lambda>a b. jle (magnitude b) (magnitude a)) (getDominantFrequencies freqs mags count) \<and>
   sorted_wrt (\<lambda>a b. magnitude a = magnitude b \<longrightarrow>
                 (\<forall>i j. index a = Some i \<and> index b = Some j \<longrightarrow> i < j))
     (getDominantFrequencies freqs mags count)"
proof (cases "indexedMagnitudes freqs mags = []")
  case True
  then have "getDominantFrequencies freqs mags count =
               replicate count \<lparr>index = None, magnitude = Num 0, frequency = Num 0\<rparr>"
    by (simp add: getDominantFrequencies_def)
  then show ?thesis
    by (simp add: sorted_wrt_replicate_same jle_def)
next
  case False
  let ?cands = "indexedMagnitudes freqs mags"
  let ?out = "getDominantFrequencies freqs mags count"
  have out: "?out = take count (sort_by by_magnitude ?cands)"
    using False by (simp add: getDominantFrequencies_def)
  have sub: "set ?out \<subseteq> set ?cands"
    unfolding out using set_take_subset [of count "sort_by by_magnitude ?cands"]
    by (simp add: set_sort_by)
  have a: "index e \<noteq> Some 0 \<and>
           (\<forall>i. index e = Some i \<longrightarrow> 1 \<le> i \<and> i < length mags \<and> magnitude e = mags ! i)"
    if "e \<in> set ?out" for e
  proof -
    from that sub have "e \<in> set ?cands" by blast
    then show ?thesis
      by (auto simp: indexedMagnitudes_member dest: clean_positive)
  qed
  have fin: "\<forall>e \<in> set ?cands. isFinite (magnitude e)"
    by (simp add: indexedMagnitudes_finite)
  have "sorted_wrt ranks_before (sort_by by_magnitude ?cands)"
    using indexedMagnitudes_positions fin by (rule sorted_sort_by)
  then have s: "sorted_wrt ranks_before ?out"
    unfolding out by (rule sorted_wrt_take)
  have b: "sorted_wrt (\<lambda>a b. jle (magnitude b) (magnitude a)) ?out"
  proof (rule sorted_wrt_mono_rel [OF _ s])
    fix a b assume "a \<in> set ?out" "b \<in> set ?out" "ranks_before a b"
    moreover from this sub fin have "isFinite (magnitude a)" by blast
    ultimately show "jle (magnitude b) (magnitude a)"
      by (cases "magnitude a") (auto simp: ranks_before_def jle_def)
  qed
  have c: "sorted_wrt (\<lambda>a b. magnitude a = magnitude b \<longrightarrow>
                 (\<forall>i j. index a = Some i \<and> index b = Some j \<longrightarrow> i < j)) ?out"
  proof (rule sorted_wrt_mono_rel [OF _ s])
    fix a b assume "a \<in> set ?out" "b \<in> set ?out" "ranks_before a b"
    then show "magnitude a = magnitude b \<longrightarrow>
                 (\<forall>i j. index a = Some i \<and> index b = Some j \<longrightarrow> i < j)"
      by (auto simp: ranks_before_def position_def jlt_irrefl)
  qed
  from a b c show ?thesis by blast
qed

text \<open>
  C6 on a spectrum with two ties: of the magnitudes \<open>2, 5, 2, 5\<close> at the indices \<open>1\<close> to
  \<open>4\<close> the first three in rank are the indices \<open>2\<close>, \<open>4\<close> and \<open>1\<close>.
\<close>

theorem getDominantFrequencies_order_witness:
  "getDominantFrequencies [Num 0, Num 1, Num 2, Num 3, Num 4] [Num 9, Num 2, Num 5, Num 2, Num 5] 3 =
     [\<lparr>index = Some 2, magnitude = Num 5, frequency = Num 2\<rparr>,
      \<lparr>index = Some 4, magnitude = Num 5, frequency = Num 4\<rparr>,
      \<lparr>index = Some 1, magnitude = Num 2, frequency = Num 1\<rparr>] \<and>
   sorted_wrt (\<lambda>a b. jle (magnitude b) (magnitude a))
     [\<lparr>index = Some 2, magnitude = Num 5, frequency = Num 2\<rparr>,
      \<lparr>index = Some 4, magnitude = Num 5, frequency = Num 4\<rparr>,
      \<lparr>index = Some 1, magnitude = Num 2, frequency = Num 1\<rparr>] \<and>
   sorted_wrt (\<lambda>a b. magnitude a = magnitude b \<longrightarrow>
                 (\<forall>i j. index a = Some i \<and> index b = Some j \<longrightarrow> i < j))
     [\<lparr>index = Some 2, magnitude = Num 5, frequency = Num 2\<rparr>,
      \<lparr>index = Some 4, magnitude = Num 5, frequency = Num 4\<rparr>,
      \<lparr>index = Some 1, magnitude = Num 2, frequency = Num 1\<rparr>]"
  using getDominantFrequencies_order
          [of "[Num 0, Num 1, Num 2, Num 3, Num 4]" "[Num 9, Num 2, Num 5, Num 2, Num 5]" 3]
  unfolding getDominantFrequencies_example by blast

section \<open>Padding before the window\<close>

text \<open>
  C7: for an input of length \<open>L \<ge> 1\<close>, \<open>performFFT\<close> pads it to the length
  \<open>P = 2 ^ ceiling (log 2 L)\<close>, which is at least \<open>L\<close> and is \<open>L\<close> when \<open>L\<close> is a power of two,
  by appending zeros after the unchanged input; the window is applied to the padded
  sequence, and the transform is called on the windowed one.
\<close>

theorem performFFT_pads_then_windows:
  assumes "1 \<le> length timeData"
  shows "let L = length timeData;
             P = 2 ^ nat \<lceil>log 2 (real L)\<rceil>;
             padded = timeData @ replicate (P - L) (Num 0)
         in L \<le> P \<and> ((\<exists>k. L = 2 ^ k) \<longrightarrow> P = L) \<and>
            paddedData timeData = padded \<and> length padded = P \<and>
            windowedData timeData = applyHannWindow padded \<and>
            performFFT fft timeData =
              (case (case fft (Phasors (map (\<lambda>val. (val, Num 0)) (applyHannWindow padded))) of
                       Some fftResult \<Rightarrow> Some fftResult
                     | None \<Rightarrow> fft (Alternating (alternating (applyHannWindow padded)))) of
                 Some fftResult \<Rightarrow> magnitudes_of fftResult P
               | None \<Rightarrow> replicate ((L + 1) div 2) (Num 0))"
proof -
  define L where "L = length timeData"
  define P :: nat where "P = 2 ^ nat \<lceil>log 2 (real L)\<rceil>"
  define padded where "padded = timeData @ replicate (P - L) (Num 0)"
  have L: "0 < L" using assms by (simp add: L_def Suc_le_eq)
  have P: "P = nextPow2 L" using L by (simp add: P_def nextPow2_def)
  have le: "L \<le> P" unfolding P by (rule nextPow2_ge)
  have pw: "(\<exists>k. L = 2 ^ k) \<longrightarrow> P = L" unfolding P by (auto simp: nextPow2_power)
  have pd: "paddedData timeData = padded"
    by (simp add: paddedData_eq padded_def P L_def)
  have len: "length padded = P" using le by (simp add: padded_def L_def)
  have wd: "windowedData timeData = applyHannWindow padded"
    by (simp add: windowedData_def pd)
  have lw: "length (windowedData timeData) = P"
    by (simp add: wd length_applyHannWindow len)
  have pf: "performFFT fft timeData =
              (case (case fft (Phasors (map (\<lambda>val. (val, Num 0)) (applyHannWindow padded))) of
                       Some fftResult \<Rightarrow> Some fftResult
                     | None \<Rightarrow> fft (Alternating (alternating (applyHannWindow padded)))) of
                 Some fftResult \<Rightarrow> magnitudes_of fftResult P
               | None \<Rightarrow> replicate ((L + 1) div 2) (Num 0))"
    unfolding performFFT_def call_fft_def phasors_def lw unfolding wd L_def ..
  show ?thesis
    using le pw pd len wd pf
    unfolding Let_def L_def [symmetric] P_def [symmetric] padded_def [symmetric]
    by blast
qed

text \<open>
  C7 on three values, padded with one zero to four, and on four values, left as they are.
\<close>

theorem performFFT_pads_then_windows_witness:
  "paddedData [Num 1, Num 2, Num 3] = [Num 1, Num 2, Num 3, Num 0] \<and>
   paddedData [Num 1, Num 2, Num 3, Num 4] = [Num 1, Num 2, Num 3, Num 4]"
proof -
  have a: "(2::nat) ^ nat \<lceil>log 2 (real (length [Num 1, Num 2, Num 3]))\<rceil> = 4"
    using nextPow2_3 by (simp add: nextPow2_def)
  have b: "(2::nat) ^ nat \<lceil>log 2 (real (length [Num 1, Num 2, Num 3, Num 4]))\<rceil> = 4"
    using nextPow2_4 by (simp add: nextPow2_def)
  have c: "replicate (4 - 3) (Num 0) = [Num 0]" by simp
  show ?thesis
    using performFFT_pads_then_windows [of "[Num 1, Num 2, Num 3]" reference_fft]
          performFFT_pads_then_windows [of "[Num 1, Num 2, Num 3, Num 4]" reference_fft]
    unfolding Let_def a b by (simp add: c)
qed

section \<open>The magnitude spectrum\<close>

text \<open>
  C8: when the transform succeeds on the windowed sequence of an input of at least two
  values and returns the \<open>P\<close> coefficients of the padded length \<open>P\<close> (as \<open>P\<close> pairs, or as a
  flat array of \<open>2 * P\<close> numbers), the magnitude spectrum has \<open>P div 2\<close> entries and entry
  \<open>i\<close> is \<open>sqrt (re i * re i + im i * im i) / P\<close>: the first half of the coefficients.
\<close>

theorem performFFT_magnitudes:
  assumes "2 \<le> length timeData"
      and "call_fft fft (windowedData timeData) = Some fftResult"
      and "case fftResult of
             Pairs ps \<Rightarrow> length ps = length (paddedData timeData)
           | Flat vs \<Rightarrow> length vs = 2 * length (paddedData timeData)"
  shows "length (performFFT fft timeData) = length (paddedData timeData) div 2 \<and>
         (\<forall>i < length (paddedData timeData) div 2.
            performFFT fft timeData ! i =
              jdiv (jsqrt (jadd (jmul (fst (coefficients fftResult ! i))
                                      (fst (coefficients fftResult ! i)))
                                (jmul (snd (coefficients fftResult ! i))
                                      (snd (coefficients fftResult ! i)))))
                   (Num (real (length (paddedData timeData)))))"
proof -
  define P where "P = length (paddedData timeData)"
  have P: "P = nextPow2 (length timeData)" by (simp add: P_def length_paddedData)
  have ev: "even P" unfolding P using assms(1) by (rule nextPow2_even)
  have lw: "length (windowedData timeData) = P" by (simp add: P length_windowedData)
  have pf: "performFFT fft timeData = magnitudes_of fftResult P"
    by (simp add: performFFT_def assms(2) lw)
  show ?thesis
  proof (cases fftResult)
    case (Pairs ps)
    with assms(3) have l: "length ps = P" by (simp add: P_def)
    have h: "Suc P div 2 = P div 2" using ev by presburger
    show ?thesis
      unfolding P_def [symmetric] pf Pairs
      by (simp add: l h magnitude_of_def)
  next
    case (Flat vs)
    with assms(3) have l: "length vs = 2 * P" by (simp add: P_def)
    have h: "(2 * P + 3) div 4 = P div 2" "(P * 2 + 3) div 4 = P div 2"
      using ev by presburger+
    have i: "\<And>i. i < P div 2 \<Longrightarrow> i * 2 < 2 * P \<and> Suc (i * 2) < 2 * P \<and> i < P"
      by presburger
    show ?thesis
      unfolding P_def [symmetric] pf Flat
      by (simp add: l h i magnitude_of_def at_index_def)
  qed
qed

text \<open>
  C8 on four values and a transform that answers with the coefficients \<open>2i, 1, 0, 0\<close>:
  the spectrum is \<open>[2 / 4, 1 / 4]\<close>.
\<close>

theorem performFFT_magnitudes_witness:
  "performFFT (\<lambda>inp. Some (Pairs [(Num 0, Num 2), (Num 1, Num 0), (Num 0, Num 0), (Num 0, Num 0)]))
              [Num 0, Num 0, Num 0, Num 0] = [Num (1 / 2), Num (1 / 4)]"
proof -
  let ?fft = "\<lambda>inp :: fft_input.
                Some (Pairs [(Num 0, Num 2), (Num 1, Num 0), (Num 0, Num 0), (Num 0, Num 0)])"
  let ?xs = "[Num 0, Num 0, Num 0, Num 0]"
  have "length ?xs = 4" by simp
  then have l: "length (paddedData ?xs) = 4"
    unfolding length_paddedData by (simp only: nextPow2_4)
  have c: "call_fft ?fft (windowedData ?xs)
             = Some (Pairs [(Num 0, Num 2), (Num 1, Num 0), (Num 0, Num 0), (Num 0, Num 0)])"
    by (simp add: call_fft_def)
  have t: "length (performFFT ?fft ?xs) = 2 \<and>
           performFFT ?fft ?xs ! 0 = Num (1 / 2) \<and> performFFT ?fft ?xs ! 1 = Num (1 / 4)"
    using performFFT_magnitudes [of ?xs ?fft, OF _ c] by (simp add: l)
  show ?thesis
    by (rule nth_equalityI) (use t in \<open>auto simp: less_Suc_eq numeral_2_eq_2\<close>)
qed

section \<open>A transform that fails on one axis\<close>




section \<open>Entries without a usable frequency\<close>

text \<open>
  C10, as stated: an entry at an index \<open>i \<ge> 1\<close> whose magnitude is positive and finite
  and whose frequency is NaN or not finite is retained in the output with the frequency
  \<open>0\<close>. It fails where the count cuts the entry off: of the magnitudes \<open>1, 5, 5, 5\<close> at
  the indices \<open>1\<close> to \<open>4\<close> the output of three entries holds the indices \<open>2\<close>, \<open>3\<close> and \<open>4\<close>,
  and the entry of index \<open>1\<close>, whose frequency is NaN, is not in it.
\<close>

theorem bad_frequency_cut_counterexample:
  "getDominantFrequencies [Num 0, NaN, Num 2, Num 3, Num 4] [Num 9, Num 1, Num 5, Num 5, Num 5] 3 =
     [\<lparr>index = Some 2, magnitude = Num 5, frequency = Num 2\<rparr>,
      \<lparr>index = Some 3, magnitude = Num 5, frequency = Num 3\<rparr>,
      \<lparr>index = Some 4, magnitude = Num 5, frequency = Num 4\<rparr>] \<and>
   \<lparr>index = Some 1, magnitude = Num 1, frequency = Num 0\<rparr>
     \<notin> set (getDominantFrequencies [Num 0, NaN, Num 2, Num 3, Num 4]
                [Num 9, Num 1, Num 5, Num 5, Num 5] 3)"
  by (simp add: getDominantFrequencies_def indexedMagnitudes_def clean_def at_index_def jgt_def
        sort_by_def by_magnitude_def jsub_def)

text \<open>
  C10, amended: an entry at an index \<open>i \<ge> 1\<close> whose magnitude \<open>m\<close> is positive and finite,
  and whose frequency is NaN, not finite or missing, is not discarded by the filter: it is
  among the entries that are ranked, with the frequency \<open>0\<close>; and it is in the output
  exactly when fewer than \<open>count\<close> entries rank before it, these being the entries at an
  index from \<open>1\<close> on with a finite magnitude above \<open>m\<close>, or equal to \<open>m\<close> at an index below
  \<open>i\<close>.
\<close>

theorem getDominantFrequencies_bad_frequency_ranked:
  assumes "1 \<le> i" and "i < length mags" and "mags ! i = Num m" and "0 < m"
      and "isNaN (at_index freqs i) \<or> \<not> isFinite (at_index freqs i)"
  shows "\<lparr>index = Some i, magnitude = Num m, frequency = Num 0\<rparr>
           \<in> set (indexedMagnitudes freqs mags) \<and>
         (\<lparr>index = Some i, magnitude = Num m, frequency = Num 0\<rparr>
              \<in> set (getDominantFrequencies freqs mags count) \<longleftrightarrow>
          length (filter (\<lambda>j. case mags ! j of Num v \<Rightarrow> m < v \<or> (v = m \<and> j < i) | _ \<Rightarrow> False)
                    [1..<length mags]) < count)"
proof -
  let ?e = "\<lparr>index = Some i, magnitude = Num m, frequency = Num 0\<rparr>"
  let ?cands = "indexedMagnitudes freqs mags"
  have m: "clean (mags ! i) = Num m" "jgt (clean (mags ! i)) (Num 0)"
    using assms(3,4) by (simp_all add: clean_def jgt_def)
  have f: "clean (at_index freqs i) = Num 0"
    using assms(5) by (auto simp: clean_def)
  have mem: "?e \<in> set ?cands"
    unfolding indexedMagnitudes_member using assms(1,2) m f by (intro exI [of _ i]) simp
  then have ne: "length ?cands \<noteq> 0" by auto
  have out: "getDominantFrequencies freqs mags count = take count (sort_by by_magnitude ?cands)"
    using ne by (simp add: getDominantFrequencies_def)
  have fin: "\<forall>e \<in> set ?cands. isFinite (magnitude e)"
    by (simp add: indexedMagnitudes_finite)
  have s: "sorted_wrt ranks_before (sort_by by_magnitude ?cands)"
    using indexedMagnitudes_positions fin by (rule sorted_sort_by)
  have "?e \<in> set (sort_by by_magnitude ?cands)" using mem by (simp add: set_sort_by)
  with s have "?e \<in> set (take count (sort_by by_magnitude ?cands)) \<longleftrightarrow>
           length (filter (\<lambda>c. ranks_before c ?e) (sort_by by_magnitude ?cands)) < count"
    by (intro in_take_iff_rank) (auto dest: ranks_before_asym)
  then have "?e \<in> set (getDominantFrequencies freqs mags count) \<longleftrightarrow>
        length (filter (\<lambda>j. case mags ! j of Num v \<Rightarrow> m < v \<or> (v = m \<and> j < i) | _ \<Rightarrow> False)
                    [1..<length mags]) < count"
    unfolding out count_sort_by indexedMagnitudes_rank [OF assms(4)] .
  with mem show ?thesis by blast
qed

text \<open>
  The amended C10 on two spectra. In the first the entry of index \<open>2\<close>, magnitude \<open>5\<close> and
  frequency NaN has one entry before it (index \<open>1\<close>, magnitude \<open>8\<close>) and is in the output of
  two entries, ahead of the entry of index \<open>3\<close> with the same magnitude. In the second the
  entry of index \<open>1\<close> has three entries before it and is not in the output of three.
\<close>

theorem getDominantFrequencies_bad_frequency_ranked_witness:
  "\<lparr>index = Some 2, magnitude = Num 5, frequency = Num 0\<rparr>
     \<in> set (getDominantFrequencies [Num 0, Num 1, NaN, Num 3] [Num 9, Num 8, Num 5, Num 5] 2) \<and>
   \<lparr>index = Some 1, magnitude = Num 1, frequency = Num 0\<rparr>
     \<notin> set (getDominantFrequencies [Num 0, NaN, Num 2, Num 3, Num 4]
                [Num 9, Num 1, Num 5, Num 5, Num 5] 3)"
proof -
  have u: "[1..<4] = [1, 2, 3::nat]" "[1..<5] = [1, 2, 3, 4::nat]"
    by (simp_all add: upt_rec)
  show ?thesis
    using getDominantFrequencies_bad_frequency_ranked
            [of 2 "[Num 9, Num 8, Num 5, Num 5]" 5 "[Num 0, Num 1, NaN, Num 3]" 2]
          getDominantFrequencies_bad_frequency_ranked
            [of 1 "[Num 9, Num 1, Num 5, Num 5, Num 5]" 1 "[Num 0, NaN, Num 2, Num 3, Num 4]" 3]
    by (simp add: at_index_def u)
qed

end
